theory Spec2Isabelle
  imports Main
begin

section \<open>Values, objects and the per-instance side tables\<close>

text \<open>
  The module under verification is the utility module of the render core
  (\<^verbatim>\<open>dispatchEvent\<close>, \<^verbatim>\<open>getInitialProps\<close>, \<^verbatim>\<open>handleMiddleware\<close>, \<^verbatim>\<open>handleError\<close>),
  in the revision that the test-suite of \<^verbatim>\<open>core/impl\<close> exercises (the one exporting
  \<^verbatim>\<open>handleMiddleware\<close> and using \<^verbatim>\<open>CancelError\<close>). The repository also holds an
  earlier revision of the module (\<^verbatim>\<open>src/core/utils.js\<close>), in which the executor is
  called \<^verbatim>\<open>processMiddleware\<close> and passes \<^verbatim>\<open>{ ...props, props }\<close> without writing to the
  accumulator, \<^verbatim>\<open>handleError\<close> has the same body, and \<^verbatim>\<open>getInitialProps\<close> has no
  \<^verbatim>\<open>abort\<close> helper yet.

  JavaScript objects are mutable and shared by reference, and the pipeline executor
  writes a self-reference into the accumulated props object (\<^verbatim>\<open>props.props = props\<close>).
  Objects therefore live in an explicit heap: an object is an address, its own enumerable
  properties are a map from keys to values.
\<close>

type_synonym addr = nat
type_synonym node = nat
type_synonym task = nat

text \<open>
  Property keys are strings, or the symbol \<^verbatim>\<open>handler\<close> that the rescue middleware exports
  as the recovery-handler marker.
\<close>

datatype key = KStr string | KHandler

text \<open>
  The closures this module creates are kept as data, one constructor per function
  expression of the source; \<open>UserFn\<close> is a function defined outside the module
  (for instance the callback a rescue middleware stores under \<^verbatim>\<open>handler\<close>).
\<close>

datatype fn =
    BoundRender node      \<comment> \<open>\<^verbatim>\<open>node.render.bind(node)\<close>\<close>
  | Dispatch node         \<comment> \<open>\<^verbatim>\<open>dispatchEvent(node)\<close>\<close>
  | Resolved task         \<comment> \<open>\<^verbatim>\<open>async () => (await Promise.race([scheduledTask, Promise.resolve(false)])) !== false\<close>\<close>
  | Abort                 \<comment> \<open>\<^verbatim>\<open>() => { throw new CancelError() }\<close>\<close>
  | RecoveryRender node   \<comment> \<open>\<^verbatim>\<open>mergeProps => { node[meta].state.setNormal(); return node.render(mergeProps) }\<close>\<close>
  | UserFn nat

datatype val =
    VUndefined
  | VNull
  | VBool bool
  | VNum int
  | VStr string
  | VObj addr             \<comment> \<open>a plain object, by reference\<close>
  | VNode node            \<comment> \<open>a host element\<close>
  | VFun fn
  | VCancelError          \<comment> \<open>an instance of \<^verbatim>\<open>CancelError\<close>\<close>
  | VError string         \<comment> \<open>an ordinary \<^verbatim>\<open>Error\<close> with its message\<close>
  | VTypeError            \<comment> \<open>the \<^verbatim>\<open>TypeError\<close> of calling a value that is not a function\<close>

text \<open>
  The state of a promise. Where a promise stands for the value a middleware step
  eventually produces, \<open>Pending\<close> is a promise that never settles.
\<close>

datatype ('a, 'e) promise = Pending | Fulfilled 'a | Rejected 'e

record heap =
  objs :: "addr \<rightharpoonup> (key \<rightharpoonup> val)"
  next_addr :: addr

record custom_event =
  ev_name :: string
  detail :: "key \<rightharpoonup> val"
  bubbles :: bool
  composed :: bool

datatype lifecycle_state = StNormal | StError

text \<open>
  The world: the object heap, the three effects the module has on its environment
  (console output, events dispatched on host elements, calls of recovery handlers), the
  module-private weak maps \<^verbatim>\<open>previousProps\<close> and \<^verbatim>\<open>errorHandlers\<close>, and the
  per-instance resources of the render orchestrator.
\<close>

record world =
  store :: heap
  previousProps :: "node \<rightharpoonup> addr"
  errorHandlers :: "node \<rightharpoonup> addr"
  console :: "(string \<times> val) list"
  dispatched :: "(node \<times> custom_event) list"
  dispatch_result :: "node \<Rightarrow> custom_event \<Rightarrow> bool"
  invoked :: "(fn \<times> addr) list"
  lifecycle :: "node \<Rightarrow> lifecycle_state"
  registry :: "node \<Rightarrow> task list"
  next_task :: task
  isConnected :: "node \<Rightarrow> bool"
  classList :: "node \<Rightarrow> string set"
  view_rendered :: "(node \<times> addr) list"

subsection \<open>Object primitives\<close>

definition own_props :: "heap \<Rightarrow> addr \<Rightarrow> (key \<rightharpoonup> val)" where
  "own_props h a = (case objs h a of None \<Rightarrow> Map.empty | Some f \<Rightarrow> f)"

text \<open>An object literal allocates a fresh object.\<close>

definition alloc :: "(key \<rightharpoonup> val) \<Rightarrow> heap \<Rightarrow> addr \<times> heap" where
  "alloc f h = (next_addr h, \<lparr>objs = (objs h)(next_addr h \<mapsto> f), next_addr = Suc (next_addr h)\<rparr>)"

text \<open>The assignment \<^verbatim>\<open>o.k = v\<close>.\<close>

definition set_prop :: "addr \<Rightarrow> key \<Rightarrow> val \<Rightarrow> heap \<Rightarrow> heap" where
  "set_prop a k v h = h\<lparr>objs := (objs h)(a \<mapsto> (own_props h a)(k \<mapsto> v))\<rparr>"

fun typeof :: "val \<Rightarrow> string" where
  "typeof VUndefined = ''undefined''"
| "typeof VNull = ''object''"
| "typeof (VBool b) = ''boolean''"
| "typeof (VNum i) = ''number''"
| "typeof (VStr s) = ''string''"
| "typeof (VObj a) = ''object''"
| "typeof (VNode n) = ''object''"
| "typeof (VFun f) = ''function''"
| "typeof VCancelError = ''object''"
| "typeof (VError m) = ''object''"
| "typeof VTypeError = ''object''"

fun digits :: "nat \<Rightarrow> string" where
  "digits n = (if n < 10 then [char_of (48 + n)]
               else digits (n div 10) @ [char_of (48 + n mod 10)])"

text \<open>
  The properties an object spread \<^verbatim>\<open>{ ...v }\<close> copies: the own enumerable properties of
  an object (symbol keys included), the indexed characters of a string, nothing for
  \<^verbatim>\<open>undefined\<close>, \<^verbatim>\<open>null\<close>, numbers and booleans. Functions, host elements and error
  objects carry no own enumerable property in this model.
\<close>

fun spread :: "heap \<Rightarrow> val \<Rightarrow> (key \<rightharpoonup> val)" where
  "spread h (VObj a) = own_props h a"
| "spread h (VStr s) = map_of (zip (map (\<lambda>i. KStr (digits i)) [0..<length s]) (map (\<lambda>c. VStr [c]) s))"
| "spread h v = Map.empty"

section \<open>dispatchEvent\<close>

text \<open>
  \<^verbatim>\<open>
  export const dispatchEvent = node => (name, payload) => {
      const model = typeof payload === 'object' ? payload : { value: payload };
      return node.dispatchEvent(
          new window.CustomEvent(name, {
              detail: { ...model, version: 3 },
              bubbles: true,
              composed: true
          })
      );
  };
  \<close>
  The host's \<^verbatim>\<open>node.dispatchEvent\<close> is the environment: the call is recorded in
  \<open>dispatched\<close> and its boolean result is read from \<open>dispatch_result\<close>.
\<close>

definition dispatchEvent :: "node \<Rightarrow> string \<Rightarrow> val \<Rightarrow> world \<Rightarrow> world \<times> bool" where
  "dispatchEvent n name payload w =
     (let model = (if typeof payload = ''object'' then spread (store w) payload
                   else [KStr ''value'' \<mapsto> payload]);
          ev = \<lparr>ev_name = name, detail = model(KStr ''version'' \<mapsto> VNum 3),
                bubbles = True, composed = True\<rparr>
      in (w\<lparr>dispatched := dispatched w @ [(n, ev)]\<rparr>, dispatch_result w n ev))"

section \<open>getInitialProps\<close>

text \<open>
  \<^verbatim>\<open>
  export const getInitialProps = (node, mergeProps, scheduledTask) => ({
      ...(previousProps.get(node) || {}),
      ...mergeProps,
      node,
      render: node.render.bind(node),
      dispatch: dispatchEvent(node),
      prevProps: previousProps.get(node) || null,
      resolved: async () => { ... },
      abort: () => { throw new CancelError(); }
  });
  \<close>
\<close>

definition helpers :: "node \<Rightarrow> task \<Rightarrow> addr option \<Rightarrow> (key \<rightharpoonup> val)" where
  "helpers n scheduledTask prev =
     [KStr ''node'' \<mapsto> VNode n,
      KStr ''render'' \<mapsto> VFun (BoundRender n),
      KStr ''dispatch'' \<mapsto> VFun (Dispatch n),
      KStr ''prevProps'' \<mapsto> (case prev of None \<Rightarrow> VNull | Some p \<Rightarrow> VObj p),
      KStr ''resolved'' \<mapsto> VFun (Resolved scheduledTask),
      KStr ''abort'' \<mapsto> VFun Abort]"

definition getInitialProps :: "node \<Rightarrow> val \<Rightarrow> task \<Rightarrow> world \<Rightarrow> addr \<times> world" where
  "getInitialProps n mergeProps scheduledTask w =
     (let prev = previousProps w n;
          seed = (case prev of None \<Rightarrow> Map.empty | Some p \<Rightarrow> own_props (store w) p);
          (a, h) = alloc (seed ++ spread (store w) mergeProps ++ helpers n scheduledTask prev) (store w)
      in (a, w\<lparr>store := h\<rparr>))"

text \<open>What the two closures without free state do when they are called.\<close>

definition call_Abort :: "val + val" where
  "call_Abort = Inl VCancelError"

definition call_Dispatch :: "node \<Rightarrow> string \<Rightarrow> val \<Rightarrow> world \<Rightarrow> world \<times> bool" where
  "call_Dispatch n = dispatchEvent n"

definition call_BoundRender :: "(node \<Rightarrow> val \<Rightarrow> world \<Rightarrow> 'r) \<Rightarrow> node \<Rightarrow> val \<Rightarrow> world \<Rightarrow> 'r" where
  "call_BoundRender node_render n mergeProps w = node_render n mergeProps w"

subsection \<open>The resolved helper\<close>

text \<open>
  \<^verbatim>\<open>Promise.race\<close> settles as the first promise, in the order of the array, that is already
  settled when it is called; it stays pending when none is.
\<close>

fun promise_race :: "('a, 'e) promise list \<Rightarrow> ('a, 'e) promise" where
  "promise_race [] = Pending"
| "promise_race (Pending # ps) = promise_race ps"
| "promise_race (p # ps) = p"

text \<open>
  \<^verbatim>\<open>
  resolved: async () => {
      const resolution = await Promise.race([scheduledTask, Promise.resolve(false)]);
      return resolution !== false;
  }
  \<close>
  The argument is the state of \<^verbatim>\<open>scheduledTask\<close> at the moment the helper is called, the
  result is what the helper's own promise settles to.
\<close>

definition call_Resolved :: "(val, val) promise \<Rightarrow> (val, val) promise" where
  "call_Resolved scheduledTask =
     (case promise_race [scheduledTask, Fulfilled (VBool False)] of
        Fulfilled resolution \<Rightarrow> Fulfilled (VBool (resolution \<noteq> VBool False))
      | Rejected e \<Rightarrow> Rejected e
      | Pending \<Rightarrow> Pending)"

text \<open>
  The life of a task's promise in logical time: pending before \<open>settles_at\<close>, settled
  as \<open>outcome\<close> from then on.
\<close>

record timeline =
  settles_at :: nat
  outcome :: "(val, val) promise"

definition state_at :: "timeline \<Rightarrow> nat \<Rightarrow> (val, val) promise" where
  "state_at line t = (if t < settles_at line then Pending else outcome line)"

section \<open>handleMiddleware\<close>

text \<open>
  A middleware step is typed as the source documents it,
  \<^verbatim>\<open>[(p -> Promise p|p)]\<close>: called with a props object it returns a props object, returns
  a promise of one, or throws. It can read and write the objects of the heap; the weak
  maps are private to the module, so a step cannot reach them.
\<close>

datatype mw_result =
    Returns addr
  | ReturnsPromise "(addr, val) promise"
  | Throws val

type_synonym middleware = "heap \<Rightarrow> addr \<Rightarrow> heap \<times> mw_result"

text \<open>
  \<^verbatim>\<open>
  export const handleMiddleware = async (node, initialProps, middleware) => {
      const props = await middleware.reduce(async (accumP, middlewareP) => {
          const props = await accumP;
          props.props = props;
          const middleware = await middlewareP;
          const newProps = middleware({ ...props });
          handler in newProps && errorHandlers.set(node, newProps);
          return newProps;
      }, initialProps);
      previousProps.set(node, props);
      return props;
  };
  \<close>
  \<^verbatim>\<open>reduce\<close> is a left fold whose accumulator is the promise the previous call of
  the \<^verbatim>\<open>async\<close> callback returned. The body of a call runs once that promise is
  fulfilled, so the bodies run in list order and the world is threaded through them in
  that order. Awaiting a rejected accumulator rejects the callback's own promise before
  anything else of its body runs; awaiting one that never settles leaves it pending.
  What a step does to the heap is taken at its call, also for a step that suspends, and
  the entries of the list are the functions themselves.
\<close>

definition step_argument :: "addr \<Rightarrow> heap \<Rightarrow> addr \<times> heap" where
  "step_argument props h =
     (let h1 = set_prop props (KStr ''props'') (VObj props) h
      in alloc (own_props h1 props) h1)"

text \<open>
  The callback's body after \<^verbatim>\<open>await accumP\<close>. A promise has no property \<^verbatim>\<open>handler\<close>,
  so \<^verbatim>\<open>handler in newProps\<close> is false for a step that returns one; returning it makes the
  callback's promise settle as that promise does.
\<close>

definition callback_body :: "node \<Rightarrow> addr \<Rightarrow> middleware \<Rightarrow> world \<Rightarrow> world \<times> (addr, val) promise" where
  "callback_body n props m w =
     (let (arg, h2) = step_argument props (store w);
          (h3, newProps) = m h2 arg;
          w3 = w\<lparr>store := h3\<rparr>
      in case newProps of
           Throws e \<Rightarrow> (w3, Rejected e)
         | Returns p \<Rightarrow>
             (if own_props h3 p KHandler \<noteq> None
              then w3\<lparr>errorHandlers := (errorHandlers w3)(n \<mapsto> p)\<rparr> else w3,
              Fulfilled p)
         | ReturnsPromise pr \<Rightarrow> (w3, pr))"

definition reducer :: "node \<Rightarrow> world \<times> (addr, val) promise \<Rightarrow> middleware \<Rightarrow> world \<times> (addr, val) promise" where
  "reducer n acc m =
     (case acc of
        (w, Fulfilled props) \<Rightarrow> callback_body n props m w
      | (w, Rejected e) \<Rightarrow> (w, Rejected e)
      | (w, Pending) \<Rightarrow> (w, Pending))"

definition handleMiddleware :: "node \<Rightarrow> addr \<Rightarrow> middleware list \<Rightarrow> world \<Rightarrow> world \<times> (addr, val) promise" where
  "handleMiddleware n initialProps middleware w =
     (case foldl (reducer n) (w, Fulfilled initialProps) middleware of
        (w', Fulfilled props) \<Rightarrow> (w'\<lparr>previousProps := (previousProps w')(n \<mapsto> props)\<rparr>, Fulfilled props)
      | (w', Rejected e) \<Rightarrow> (w', Rejected e)
      | (w', Pending) \<Rightarrow> (w', Pending))"

text \<open>
  The fold as the specification words it: the steps run one after the other, each on
  the value the step before it produced, and the first step that does not produce a value
  ends the run. The step itself is a parameter.
\<close>

fun sequential_fold ::
  "('s \<Rightarrow> 'a \<Rightarrow> 'm \<Rightarrow> 's \<times> ('a, 'e) promise) \<Rightarrow> 'a \<Rightarrow> 'm list \<Rightarrow> 's \<Rightarrow> 's \<times> ('a, 'e) promise" where
  "sequential_fold step acc [] s = (s, Fulfilled acc)"
| "sequential_fold step acc (m # ms) s =
     (case step s acc m of
        (s', Fulfilled acc') \<Rightarrow> sequential_fold step acc' ms s'
      | (s', Rejected e) \<Rightarrow> (s', Rejected e)
      | (s', Pending) \<Rightarrow> (s', Pending))"

section \<open>Lifecycle state and task registry\<close>

text \<open>
  The module behind \<^verbatim>\<open>node[meta].state\<close> and the queue module are not among the
  sources; \<^verbatim>\<open>handleError\<close> uses the first through \<^verbatim>\<open>setNormal\<close>, the tests of the
  orchestrator use \<^verbatim>\<open>setError\<close>, \<^verbatim>\<open>isError\<close>, \<^verbatim>\<open>isEmpty\<close>, \<^verbatim>\<open>isInvalid\<close> and
  \<^verbatim>\<open>drop\<close>.
\<close>

text \<open>
  Modelled from the spec: the Lifecycle State transition \<open>error -> normal\<close> of an
  instance, \<^verbatim>\<open>node[meta].state.setNormal()\<close>; the state has the two values \<open>normal\<close>
  (initial) and \<open>error\<close> and nothing else.
\<close>

definition setNormal :: "node \<Rightarrow> world \<Rightarrow> world" where
  "setNormal n w = w\<lparr>lifecycle := (lifecycle w)(n := StNormal)\<rparr>"

text \<open>Modelled from the spec: the Lifecycle State transition \<open>normal -> error\<close>.\<close>

definition setError :: "node \<Rightarrow> world \<Rightarrow> world" where
  "setError n w = w\<lparr>lifecycle := (lifecycle w)(n := StError)\<rparr>"

text \<open>Modelled from the spec: the Lifecycle State query \<open>isError() -> bool\<close>.\<close>

definition isError :: "node \<Rightarrow> world \<Rightarrow> bool" where
  "isError n w = (lifecycle w n = StError)"

text \<open>
  Modelled from the spec: the Task Registry operation \<open>enqueue() -> TaskHandle\<close>, which
  creates and registers a new task; handles are numbered in the order of their creation.
\<close>

definition enqueue :: "node \<Rightarrow> world \<Rightarrow> task \<times> world" where
  "enqueue n w =
     (next_task w,
      w\<lparr>registry := (registry w)(n := registry w n @ [next_task w]), next_task := Suc (next_task w)\<rparr>)"

text \<open>
  Modelled from the spec: the Task Registry query \<open>isEmpty() -> bool\<close>, true iff no task
  is registered.
\<close>

definition isEmpty :: "node \<Rightarrow> world \<Rightarrow> bool" where
  "isEmpty n w = (registry w n = [])"

text \<open>
  Modelled from the spec: the Task Registry query \<open>isInvalid(handle) -> bool\<close>, true iff
  the handle is no longer registered.
\<close>

definition isInvalid :: "node \<Rightarrow> task \<Rightarrow> world \<Rightarrow> bool" where
  "isInvalid n t w = (t \<notin> set (registry w n))"

text \<open>
  Modelled from the spec: the Task Registry operation \<open>drop(handle)\<close>, which removes the
  task from the registry and is idempotent (\<open>drop\<close> itself is a function on lists).
\<close>

definition drop_task :: "node \<Rightarrow> task \<Rightarrow> world \<Rightarrow> world" where
  "drop_task n t w = w\<lparr>registry := (registry w)(n := removeAll t (registry w n))\<rparr>"

section \<open>handleError\<close>

definition consoleMessage :: "val \<Rightarrow> string \<Rightarrow> world \<Rightarrow> world" where
  "consoleMessage text type w = w\<lparr>console := console w @ [(type, text)]\<rparr>"

text \<open>
  \<^verbatim>\<open>
  export const handleError = (node, error) => {
      const props = errorHandlers.get(node);
      if (!props) {
          consoleMessage(error);
          return;
      }
      previousProps.set(node, { ...props, error });
      props[handler]({
          ...props,
          error,
          render: mergeProps => {
              node[meta].state.setNormal();
              return node.render(mergeProps);
          }
      });
  };
  \<close>
  The result is \<open>None\<close> when the function returns and \<open>Some e\<close> when it throws
  \<open>e\<close>. What a function value does when it is called as the handler is the parameter
  \<open>call\<close>; the call itself is recorded in \<open>invoked\<close>. Calling a value that is
  not a function throws a \<^verbatim>\<open>TypeError\<close>, after the argument has been evaluated.
\<close>

definition handleError ::
  "(fn \<Rightarrow> addr \<Rightarrow> world \<Rightarrow> world \<times> val option) \<Rightarrow> node \<Rightarrow> val \<Rightarrow> world \<Rightarrow> world \<times> val option" where
  "handleError call n error w =
     (case errorHandlers w n of
        None \<Rightarrow> (consoleMessage error ''error'' w, None)
      | Some props \<Rightarrow>
          (let (saved, h1) = alloc (own_props (store w) props ++ [KStr ''error'' \<mapsto> error]) (store w);
               w1 = w\<lparr>store := h1, previousProps := (previousProps w)(n \<mapsto> saved)\<rparr>;
               callee = own_props (store w1) props KHandler;
               (arg, h2) = alloc (own_props (store w1) props ++
                                  [KStr ''error'' \<mapsto> error, KStr ''render'' \<mapsto> VFun (RecoveryRender n)])
                                 (store w1);
               w2 = w1\<lparr>store := h2\<rparr>
           in case callee of
                Some (VFun f) \<Rightarrow> call f arg (w2\<lparr>invoked := invoked w2 @ [(f, arg)]\<rparr>)
              | _ \<Rightarrow> (w2, Some VTypeError)))"

text \<open>
  The callback handed to the handler, \<^verbatim>\<open>mergeProps => { node[meta].state.setNormal();
  return node.render(mergeProps); }\<close>, over the instance's render entry point.
\<close>

definition call_RecoveryRender :: "(node \<Rightarrow> val \<Rightarrow> world \<Rightarrow> 'r) \<Rightarrow> node \<Rightarrow> val \<Rightarrow> world \<Rightarrow> 'r" where
  "call_RecoveryRender node_render n mergeProps w = node_render n mergeProps (setNormal n w)"

section \<open>The render orchestrator\<close>

definition getEventName :: "string \<Rightarrow> string" where
  "getEventName label = ''@switzerland/'' @ label"

text \<open>
  The implementation module of the Render Orchestrator, \<^verbatim>\<open>core/impl/index.js\<close>, is not
  among the sources; its tests are. Its \<open>render\<close> entry point is modelled from the
  specification's render algorithm:
  \<^enum> in state \<open>error\<close> return immediately;
  \<^enum> register a task;
  \<^enum> build the initial props;
  \<^enum> run the pipeline;
  \<^enum> on success, discard silently if the handle has become invalid, otherwise run the
    view renderer and, if the instance is attached, set the flag \<open>resolved\<close> and emit the
    notification \<open>resolved\<close>;
  \<^enum> on failure, do nothing for the cancellation signal; for any other error move to
    \<open>error\<close>, call the Error Recovery Controller and still emit the notification;
  \<^enum> remove the task from the registry.

  A pass runs as one unit. \<open>preempted\<close> says that an external actor dropped the handle
  while the pipeline ran. The notification carries no payload of its own. A pipeline that
  never settles leaves the pass pending, and what the Error Recovery Controller throws
  does not leave the pass.
\<close>

text \<open>
  Modelled from the spec: the \<open>resolved\<close> outbound notification of a pass, sent
  through the instance's outbound-dispatch helper.
\<close>

definition notify_resolved :: "node \<Rightarrow> world \<Rightarrow> world" where
  "notify_resolved n w = fst (dispatchEvent n (getEventName ''resolved'') VUndefined w)"

text \<open>
  Modelled from the spec: steps 2 to 4 of the render algorithm, which register the task,
  build the initial props and run the pipeline executor on them.
\<close>

definition start_pass :: "middleware list \<Rightarrow> node \<Rightarrow> val \<Rightarrow> world \<Rightarrow> task \<times> world \<times> (addr, val) promise" where
  "start_pass middleware n overrideProps w =
     (let (handle, w1) = enqueue n w;
          (initialProps, w2) = getInitialProps n overrideProps handle w1;
          (w3, result) = handleMiddleware n initialProps middleware w2
      in (handle, w3, result))"

text \<open>
  Modelled from the spec: steps 2 to 7 of the render algorithm, a pass that has not been
  refused.
\<close>

definition render_pass ::
  "middleware list \<Rightarrow> (fn \<Rightarrow> addr \<Rightarrow> world \<Rightarrow> world \<times> val option) \<Rightarrow> bool \<Rightarrow>
   node \<Rightarrow> val \<Rightarrow> world \<Rightarrow> world \<times> (unit, val) promise" where
  "render_pass middleware call preempted n overrideProps w =
     (let (handle, w3, result) = start_pass middleware n overrideProps w;
          w4 = (if preempted then drop_task n handle w3 else w3)
      in case result of
           Pending \<Rightarrow> (w4, Pending)
         | Fulfilled props \<Rightarrow>
             (if isInvalid n handle w4 then (drop_task n handle w4, Fulfilled ())
              else
                let w5 = w4\<lparr>view_rendered := view_rendered w4 @ [(n, props)]\<rparr>;
                    w6 = (if isConnected w5 n
                          then notify_resolved n
                                 (w5\<lparr>classList := (classList w5)(n := insert ''resolved'' (classList w5 n))\<rparr>)
                          else w5)
                in (drop_task n handle w6, Fulfilled ()))
         | Rejected e \<Rightarrow>
             (if e = VCancelError then (drop_task n handle w4, Fulfilled ())
              else
                let (w5, thrown) = handleError call n e (setError n w4);
                    w6 = notify_resolved n w5
                in (drop_task n handle w6, Fulfilled ())))"

text \<open>
  Modelled from the spec: the \<open>render\<close> entry point of the Render Orchestrator, which
  refuses the call in the error state (step 1) and runs a pass otherwise.
\<close>

definition render ::
  "middleware list \<Rightarrow> (fn \<Rightarrow> addr \<Rightarrow> world \<Rightarrow> world \<times> val option) \<Rightarrow> bool \<Rightarrow>
   node \<Rightarrow> val \<Rightarrow> world \<Rightarrow> world \<times> (unit, val) promise" where
  "render middleware call preempted n overrideProps w =
     (if isError n w then (w, Fulfilled ())
      else render_pass middleware call preempted n overrideProps w)"

section \<open>Example inputs\<close>

definition empty_world :: world where
  "empty_world =
     \<lparr>store = \<lparr>objs = Map.empty, next_addr = 0\<rparr>,
      previousProps = Map.empty, errorHandlers = Map.empty,
      console = [], dispatched = [], dispatch_result = (\<lambda>n ev. True), invoked = [],
      lifecycle = (\<lambda>n. StNormal), registry = (\<lambda>n. []), next_task = 0,
      isConnected = (\<lambda>n. True), classList = (\<lambda>n. {}), view_rendered = []\<rparr>"

text \<open>A world whose heap holds one object, \<^verbatim>\<open>{ a: 1, render: 'old' }\<close>, at address 0.\<close>

definition one_object_world :: world where
  "one_object_world =
     empty_world\<lparr>store := \<lparr>objs = [0 \<mapsto> [KStr ''a'' \<mapsto> VNum 1, KStr ''render'' \<mapsto> VStr ''old'']],
                              next_addr = 1\<rparr>\<rparr>"

text \<open>The rescue middleware, \<^verbatim>\<open>props => ({ ...props, [handler]: getView })\<close>.\<close>

definition rescue_step :: middleware where
  "rescue_step h props =
     (let (p, h') = alloc ((own_props h props)(KHandler \<mapsto> VFun (UserFn 0))) h in (h', Returns p))"

text \<open>A step that suspends, \<^verbatim>\<open>async props => ({ ...props, data: 1 })\<close>.\<close>

definition async_step :: middleware where
  "async_step h props =
     (let (p, h') = alloc ((own_props h props)(KStr ''data'' \<mapsto> VNum 1)) h
      in (h', ReturnsPromise (Fulfilled p)))"

text \<open>A step that returns its argument, \<^verbatim>\<open>props => props\<close>.\<close>

definition identity_step :: middleware where
  "identity_step h props = (h, Returns props)"

text \<open>A step that gives up the pass, \<^verbatim>\<open>props => props.abort()\<close>.\<close>

definition aborting_step :: middleware where
  "aborting_step h props = (h, (case call_Abort of Inl e \<Rightarrow> Throws e | Inr v \<Rightarrow> Returns props))"

text \<open>A step that fails, \<^verbatim>\<open>props => { throw new Error('boom') }\<close>.\<close>

definition failing_step :: middleware where
  "failing_step h props = (h, Throws (VError ''boom''))"

text \<open>A handler that returns without doing anything.\<close>

definition idle_handler :: "fn \<Rightarrow> addr \<Rightarrow> world \<Rightarrow> world \<times> val option" where
  "idle_handler f arg w = (w, None)"

text \<open>An instance in the error state.\<close>

definition error_world :: world where
  "error_world = empty_world\<lparr>lifecycle := (\<lambda>n. StError)\<rparr>"

text \<open>
  A world in which instance 0 has registered the snapshot
  \<^verbatim>\<open>{ a: 1, [handler]: getView }\<close>, the object at address 0.
\<close>

definition registered_world :: world where
  "registered_world =
     empty_world\<lparr>store := \<lparr>objs = [0 \<mapsto> [KStr ''a'' \<mapsto> VNum 1, KHandler \<mapsto> VFun (UserFn 0)]],
                              next_addr = 1\<rparr>,
                  errorHandlers := [0 \<mapsto> 0]\<rparr>"

section \<open>Properties\<close>

subsection \<open>Objects and the heap\<close>

lemma own_props_alloc_new: "alloc f h = (a, h') \<Longrightarrow> own_props h' a = f"
  by (auto simp: alloc_def own_props_def)

lemma own_props_alloc_old: "alloc f h = (a, h') \<Longrightarrow> b < next_addr h \<Longrightarrow> own_props h' b = own_props h b"
  by (auto simp: alloc_def own_props_def)

subsection \<open>The outbound-dispatch helper\<close>

text \<open>
  C10. For every host node, event name and payload, \<^verbatim>\<open>dispatchEvent(node)(name, payload)\<close>
  dispatches exactly one custom event on the node: the world changes by one more entry in
  the list of dispatched events and by nothing else. The event has the given name,
  \<open>bubbles\<close> and \<open>composed\<close> both true, and its detail is the payload merged with the
  version field, the payload being wrapped as \<^verbatim>\<open>{ value: payload }\<close> when
  \<^verbatim>\<open>typeof payload\<close> is not \<^verbatim>\<open>'object'\<close>. The result is the boolean the node's own
  dispatch returned for that event.
\<close>

theorem dispatchEvent_one_event:
  "\<exists>ev. dispatchEvent n name payload w = (w\<lparr>dispatched := dispatched w @ [(n, ev)]\<rparr>, dispatch_result w n ev)
     \<and> ev_name ev = name \<and> bubbles ev \<and> composed ev
     \<and> detail ev = (if typeof payload = ''object'' then spread (store w) payload
                     else [KStr ''value'' \<mapsto> payload]) ++ [KStr ''version'' \<mapsto> VNum 3]"
proof -
  let ?model = "(if typeof payload = ''object'' then spread (store w) payload
                 else [KStr ''value'' \<mapsto> payload])"
  let ?ev = "\<lparr>ev_name = name, detail = ?model(KStr ''version'' \<mapsto> VNum 3),
              bubbles = True, composed = True\<rparr>"
  have "dispatchEvent n name payload w = (w\<lparr>dispatched := dispatched w @ [(n, ?ev)]\<rparr>, dispatch_result w n ?ev)"
    by (simp add: dispatchEvent_def Let_def)
  moreover have "detail ?ev = ?model ++ [KStr ''version'' \<mapsto> VNum 3]"
    by simp
  ultimately show ?thesis
    by (intro exI[of _ ?ev]) simp
qed

subsection \<open>The initial props of a pass\<close>

text \<open>
  C8. The initial props of a pass are built in three layers. At every key, the value is
  the helper's where the key is one of the instance-bound helpers, else the caller's
  override where the overrides have the key, else the field of the previous snapshot (no
  field when there is no previous snapshot). The helpers are the bound re-entry render
  function, the bound outbound-dispatch function, the previous snapshot (\<^verbatim>\<open>null\<close> when
  absent), the \<open>resolved\<close> helper over the pass's task, the \<open>abort\<close> helper, which
  throws the cancellation signal whatever it is called with, and the host node itself.
\<close>

theorem getInitialProps_layers:
  assumes "getInitialProps n mergeProps t w = (a, w')"
  shows "own_props (store w') a k =
       (case helpers n t (previousProps w n) k of Some v \<Rightarrow> Some v
        | None \<Rightarrow> (case spread (store w) mergeProps k of Some v \<Rightarrow> Some v
           | None \<Rightarrow> (case previousProps w n of None \<Rightarrow> None | Some p \<Rightarrow> own_props (store w) p k)))
    \<and> own_props (store w') a (KStr ''render'') = Some (VFun (BoundRender n))
    \<and> own_props (store w') a (KStr ''dispatch'') = Some (VFun (Dispatch n))
    \<and> own_props (store w') a (KStr ''prevProps'') = Some (case previousProps w n of None \<Rightarrow> VNull | Some p \<Rightarrow> VObj p)
    \<and> own_props (store w') a (KStr ''resolved'') = Some (VFun (Resolved t))
    \<and> own_props (store w') a (KStr ''abort'') = Some (VFun Abort)
    \<and> own_props (store w') a (KStr ''node'') = Some (VNode n)
    \<and> call_Abort = Inl VCancelError
    \<and> call_Dispatch n = dispatchEvent n
    \<and> call_BoundRender node_render n = node_render n"
proof -
  let ?seed = "(case previousProps w n of None \<Rightarrow> Map.empty | Some p \<Rightarrow> own_props (store w) p)"
  let ?f = "?seed ++ spread (store w) mergeProps ++ helpers n t (previousProps w n)"
  from assms have al: "alloc ?f (store w) = (a, store w')"
    by (auto simp: getInitialProps_def Let_def split: prod.splits)
  have f: "own_props (store w') a = ?f" by (rule own_props_alloc_new[OF al])
  show ?thesis
    unfolding f
    by (auto simp: map_add_def helpers_def call_Abort_def call_Dispatch_def call_BoundRender_def fun_eq_iff split: option.splits)
qed

theorem getInitialProps_layers_witness:
  "own_props (store (snd (getInitialProps 0 (VObj 0) 7 (one_object_world\<lparr>previousProps := [0 \<mapsto> 0]\<rparr>))))
       (fst (getInitialProps 0 (VObj 0) 7 (one_object_world\<lparr>previousProps := [0 \<mapsto> 0]\<rparr>))) (KStr ''a'')
       = Some (VNum 1)
   \<and> own_props (store (snd (getInitialProps 0 (VObj 0) 7 (one_object_world\<lparr>previousProps := [0 \<mapsto> 0]\<rparr>))))
       (fst (getInitialProps 0 (VObj 0) 7 (one_object_world\<lparr>previousProps := [0 \<mapsto> 0]\<rparr>))) (KStr ''render'')
       = Some (VFun (BoundRender 0))"
proof -
  let ?w = "one_object_world\<lparr>previousProps := [0 \<mapsto> 0]\<rparr>"
  have g: "getInitialProps 0 (VObj 0) 7 ?w
            = (fst (getInitialProps 0 (VObj 0) 7 ?w), snd (getInitialProps 0 (VObj 0) 7 ?w))"
    by simp
  have s: "spread (store ?w) (VObj 0) (KStr ''a'') = Some (VNum 1)"
      "helpers 0 7 (previousProps ?w 0) (KStr ''a'') = None"
    by (simp_all add: one_object_world_def empty_world_def own_props_def helpers_def)
  show ?thesis
    using s getInitialProps_layers[where k = "KStr ''a''" and node_render = "render [] idle_handler False", OF g]
    by simp
qed

subsection \<open>The resolved helper\<close>

text \<open>
  C9, as the code has it. The helper does not wait for the task. It races the task
  against a promise that is already fulfilled with \<^verbatim>\<open>false\<close>: called while the task is
  still pending it resolves to \<^verbatim>\<open>false\<close>; called after the task has fulfilled it resolves
  to whether the task's value differs from \<^verbatim>\<open>false\<close>; called after the task has rejected
  it rejects with the task's error.
\<close>

theorem resolved_does_not_wait:
  "call_Resolved st = (case st of Pending \<Rightarrow> Fulfilled (VBool False)
       | Fulfilled v \<Rightarrow> Fulfilled (VBool (v \<noteq> VBool False)) | Rejected e \<Rightarrow> Rejected e)"
  by (cases st) (simp_all add: call_Resolved_def)

text \<open>
  C9, as stated, fails: a task that completes at time 1 is still pending at time 0, and
  the helper called at time 0 resolves to \<^verbatim>\<open>false\<close> instead of waiting for the
  completion and resolving to \<^verbatim>\<open>true\<close>.
\<close>

theorem resolved_waits_counterexample:
  "state_at \<lparr>settles_at = 1, outcome = Fulfilled VUndefined\<rparr> 1 = Fulfilled VUndefined
   \<and> call_Resolved (state_at \<lparr>settles_at = 1, outcome = Fulfilled VUndefined\<rparr> 0) = Fulfilled (VBool False)
   \<and> call_Resolved (state_at \<lparr>settles_at = 1, outcome = Fulfilled VUndefined\<rparr> 0) \<noteq> Fulfilled (VBool True)"
  by (simp add: call_Resolved_def state_at_def)

subsection \<open>The Error Recovery Controller\<close>

lemma handleError_unregistered:
  "errorHandlers w n = None \<Longrightarrow> handleError call n err w = (w\<lparr>console := console w @ [(''error'', err)]\<rparr>, None)"
  by (simp add: handleError_def consoleMessage_def)

lemma handleError_registered:
  assumes reg: "errorHandlers w n = Some p"
    and callee: "own_props (store w) p KHandler = Some (VFun f)"
  shows "\<exists>saved arg w2. handleError call n err w = call f arg w2
            \<and> w2 = w\<lparr>previousProps := (previousProps w)(n \<mapsto> saved), store := store w2,
                      invoked := invoked w @ [(f, arg)]\<rparr>
            \<and> own_props (store w2) saved = own_props (store w) p ++ [KStr ''error'' \<mapsto> err]
            \<and> own_props (store w2) arg = own_props (store w) p ++
                 [KStr ''error'' \<mapsto> err, KStr ''render'' \<mapsto> VFun (RecoveryRender n)]
            \<and> (\<forall>b < next_addr (store w). own_props (store w2) b = own_props (store w) b)"
proof -
  let ?f1 = "own_props (store w) p ++ [KStr ''error'' \<mapsto> err]"
  let ?f2 = "own_props (store w) p ++ [KStr ''error'' \<mapsto> err, KStr ''render'' \<mapsto> VFun (RecoveryRender n)]"
  obtain saved h1 where a1: "alloc ?f1 (store w) = (saved, h1)" by (cases "alloc ?f1 (store w)")
  have n1: "next_addr h1 = Suc (next_addr (store w))" "saved = next_addr (store w)"
    using a1 by (auto simp: alloc_def)
  have p1: "own_props h1 p = (if p = saved then ?f1 else own_props (store w) p)"
    using a1 by (auto simp: alloc_def own_props_def)
  have c1: "own_props h1 p KHandler = Some (VFun f)"
    using p1 callee by (cases "p = saved") auto
  have f2: "own_props h1 p ++ [KStr ''error'' \<mapsto> err, KStr ''render'' \<mapsto> VFun (RecoveryRender n)] = ?f2"
    using p1 by (auto simp: map_add_def fun_eq_iff)
  obtain arg h2 where a2: "alloc ?f2 h1 = (arg, h2)" by (cases "alloc ?f2 h1")
  have arg: "arg = Suc (next_addr (store w))" using a2 n1 by (auto simp: alloc_def)
  let ?w2 = "w\<lparr>previousProps := (previousProps w)(n \<mapsto> saved), store := h2, invoked := invoked w @ [(f, arg)]\<rparr>"
  have run: "handleError call n err w = call f arg ?w2"
    using reg c1 a1 a2 f2 by (simp add: handleError_def Let_def)
  have s: "own_props h2 saved = ?f1"
    using own_props_alloc_old[OF a2, of saved] own_props_alloc_new[OF a1] n1 by simp
  have g: "own_props h2 arg = ?f2" using own_props_alloc_new[OF a2] .
  have old: "\<forall>b < next_addr (store w). own_props h2 b = own_props (store w) b"
    using own_props_alloc_old[OF a2] own_props_alloc_old[OF a1] n1 by simp
  show ?thesis
    by (intro exI[of _ saved] exI[of _ arg] exI[of _ ?w2]) (simp add: run s g old)
qed

text \<open>
  A registered snapshot whose marker does not hold a function makes the call throw a
  \<^verbatim>\<open>TypeError\<close>; no handler is called.
\<close>

lemma handleError_not_callable:
  assumes reg: "errorHandlers w n = Some p"
    and callee: "\<forall>f. own_props (store w) p KHandler \<noteq> Some (VFun f)"
  shows "snd (handleError call n err w) = Some VTypeError
       \<and> invoked (fst (handleError call n err w)) = invoked w"
proof -
  let ?f1 = "own_props (store w) p ++ [KStr ''error'' \<mapsto> err]"
  obtain saved h1 where a1: "alloc ?f1 (store w) = (saved, h1)" by (cases "alloc ?f1 (store w)")
  have p1: "own_props h1 p = (if p = saved then ?f1 else own_props (store w) p)"
    using a1 by (auto simp: alloc_def own_props_def)
  have c1: "\<forall>f. own_props h1 p KHandler \<noteq> Some (VFun f)"
    using p1 callee by (cases "p = saved") auto
  show ?thesis
    using reg a1 c1
    by (auto simp: handleError_def Let_def split: prod.splits option.splits val.splits)
qed

text \<open>
  C1. Without a registration for the instance, \<open>handleError\<close> emits one diagnostic log
  and changes nothing else: previous props and registration are as before. With a
  registration (a snapshot whose marker holds a function), the handler is called
  exactly once, and the world it is called in already has the previous props of the
  instance set to a new object holding the registered snapshot's fields and the error;
  its argument is a new object holding the registered snapshot's fields, the error and
  the render callback. No object that existed before is changed.
\<close>

theorem handleError_behaviour:
  "(errorHandlers w n = None \<longrightarrow>
      handleError call n err w = (w\<lparr>console := console w @ [(''error'', err)]\<rparr>, None))
   \<and> (errorHandlers w n = Some p \<and> own_props (store w) p KHandler = Some (VFun f) \<longrightarrow>
      (\<exists>saved arg w2. handleError call n err w = call f arg w2
         \<and> w2 = w\<lparr>previousProps := (previousProps w)(n \<mapsto> saved), store := store w2,
                   invoked := invoked w @ [(f, arg)]\<rparr>
         \<and> own_props (store w2) saved = own_props (store w) p ++ [KStr ''error'' \<mapsto> err]
         \<and> own_props (store w2) arg = own_props (store w) p ++
              [KStr ''error'' \<mapsto> err, KStr ''render'' \<mapsto> VFun (RecoveryRender n)]
         \<and> (\<forall>b < next_addr (store w). own_props (store w2) b = own_props (store w) b)))"
proof (intro conjI impI)
  assume "errorHandlers w n = None"
  then show "handleError call n err w = (w\<lparr>console := console w @ [(''error'', err)]\<rparr>, None)"
    by (rule handleError_unregistered)
next
  assume a: "errorHandlers w n = Some p \<and> own_props (store w) p KHandler = Some (VFun f)"
  show "\<exists>saved arg w2. handleError call n err w = call f arg w2
         \<and> w2 = w\<lparr>previousProps := (previousProps w)(n \<mapsto> saved), store := store w2,
                   invoked := invoked w @ [(f, arg)]\<rparr>
         \<and> own_props (store w2) saved = own_props (store w) p ++ [KStr ''error'' \<mapsto> err]
         \<and> own_props (store w2) arg = own_props (store w) p ++
              [KStr ''error'' \<mapsto> err, KStr ''render'' \<mapsto> VFun (RecoveryRender n)]
         \<and> (\<forall>b < next_addr (store w). own_props (store w2) b = own_props (store w) b)"
    by (rule handleError_registered) (use a in simp_all)
qed

theorem handleError_behaviour_witness:
  "errorHandlers empty_world 0 = None
   \<and> handleError idle_handler 0 (VError ''boom'') empty_world
        = (empty_world\<lparr>console := [(''error'', VError ''boom'')]\<rparr>, None)
   \<and> errorHandlers registered_world 0 = Some 0
   \<and> own_props (store registered_world) 0 KHandler = Some (VFun (UserFn 0))
   \<and> (\<exists>saved arg w2. handleError idle_handler 0 (VError ''boom'') registered_world = (w2, None)
         \<and> previousProps w2 0 = Some saved \<and> invoked w2 = [(UserFn 0, arg)]
         \<and> own_props (store w2) saved = [KStr ''a'' \<mapsto> VNum 1, KHandler \<mapsto> VFun (UserFn 0),
                                            KStr ''error'' \<mapsto> VError ''boom'']
         \<and> own_props (store w2) arg (KStr ''render'') = Some (VFun (RecoveryRender 0)))"
proof -
  have h1: "errorHandlers empty_world 0 = None" by (simp add: empty_world_def registered_world_def)
  have h2: "errorHandlers registered_world 0 = Some 0
            \<and> own_props (store registered_world) 0 KHandler = Some (VFun (UserFn 0))"
    by (simp add: empty_world_def registered_world_def own_props_def)
  have f: "own_props (store registered_world) 0 = [KStr ''a'' \<mapsto> VNum 1, KHandler \<mapsto> VFun (UserFn 0)]"
    by (simp add: empty_world_def registered_world_def own_props_def)
  have c: "console empty_world = []" "invoked registered_world = []" by (simp_all add: empty_world_def registered_world_def)
  have A: "handleError idle_handler 0 (VError ''boom'') empty_world
        = (empty_world\<lparr>console := [(''error'', VError ''boom'')]\<rparr>, None)"
    using handleError_behaviour[where w = empty_world and n = 0 and call = idle_handler
        and err = "VError ''boom''"] h1 c by simp
  obtain saved arg w2 where B: "handleError idle_handler 0 (VError ''boom'') registered_world
          = idle_handler (UserFn 0) arg w2"
      "w2 = registered_world\<lparr>previousProps := (previousProps registered_world)(0 \<mapsto> saved), store := store w2,
                   invoked := invoked registered_world @ [(UserFn 0, arg)]\<rparr>"
      "own_props (store w2) saved = own_props (store registered_world) 0 ++ [KStr ''error'' \<mapsto> VError ''boom'']"
      "own_props (store w2) arg = own_props (store registered_world) 0 ++
              [KStr ''error'' \<mapsto> VError ''boom'', KStr ''render'' \<mapsto> VFun (RecoveryRender 0)]"
    using handleError_behaviour[where w = registered_world and n = 0 and call = idle_handler
        and err = "VError ''boom''" and p = 0 and f = "UserFn 0"] h2 by blast
  have p: "previousProps w2 0 = Some saved" "invoked w2 = [(UserFn 0, arg)]"
    by (subst B(2), simp add: c)+
  have "handleError idle_handler 0 (VError ''boom'') registered_world = (w2, None)"
    using B(1) by (simp add: idle_handler_def)
  moreover have "own_props (store w2) saved = [KStr ''a'' \<mapsto> VNum 1, KHandler \<mapsto> VFun (UserFn 0),
                                            KStr ''error'' \<mapsto> VError ''boom'']"
    using B(3) f by simp
  moreover have "own_props (store w2) arg (KStr ''render'') = Some (VFun (RecoveryRender 0))"
    using B(4) by simp
  ultimately show ?thesis using h1 h2 A p by blast
qed

subsection \<open>The pipeline executor\<close>

lemma reducer_simps:
  "reducer n (w, Fulfilled acc) m = callback_body n acc m w"
  "reducer n (w, Rejected e) m = (w, Rejected e)"
  "reducer n (w, Pending) m = (w, Pending)"
  by (simp_all add: reducer_def)

lemma foldl_reducer_Rejected: "foldl (reducer n) (w, Rejected e) ms = (w, Rejected e)"
  by (induction ms) (simp_all add: reducer_simps)

lemma foldl_reducer_Pending: "foldl (reducer n) (w, Pending) ms = (w, Pending)"
  by (induction ms) (simp_all add: reducer_simps)

lemma foldl_reducer_sequential:
  "foldl (reducer n) (w, Fulfilled acc) ms = sequential_fold (\<lambda>s a m. callback_body n a m s) acc ms w"
proof (induction ms arbitrary: w acc)
  case Nil
  show ?case by simp
next
  case (Cons m ms)
  obtain w' r where step: "callback_body n acc m w = (w', r)" by (cases "callback_body n acc m w")
  show ?case
  proof (cases r)
    case Pending
    with step show ?thesis by (simp add: reducer_simps foldl_reducer_Pending)
  next
    case (Fulfilled acc')
    with step Cons.IH[of w' acc'] show ?thesis by (simp add: reducer_simps)
  next
    case (Rejected e)
    with step show ?thesis by (simp add: reducer_simps foldl_reducer_Rejected)
  qed
qed

lemma step_argument_props:
  "step_argument acc h = (arg, h2) \<Longrightarrow> own_props h2 arg = (own_props h acc)(KStr ''props'' \<mapsto> VObj acc)"
  by (auto simp: step_argument_def Let_def alloc_def own_props_def set_prop_def)

lemma callback_body_frame:
  assumes "callback_body n acc m w = (w', r)"
  shows "previousProps w' = previousProps w \<and> console w' = console w \<and> dispatched w' = dispatched w
     \<and> dispatch_result w' = dispatch_result w \<and> invoked w' = invoked w \<and> lifecycle w' = lifecycle w
     \<and> registry w' = registry w \<and> next_task w' = next_task w \<and> isConnected w' = isConnected w
     \<and> classList w' = classList w \<and> view_rendered w' = view_rendered w"
proof -
  obtain arg h2 where a: "step_argument acc (store w) = (arg, h2)" by (cases "step_argument acc (store w)")
  obtain h3 res where b: "m h2 arg = (h3, res)" by (cases "m h2 arg")
  have "callback_body n acc m w =
          (case res of Throws e \<Rightarrow> (w\<lparr>store := h3\<rparr>, Rejected e)
           | Returns p \<Rightarrow> (if own_props h3 p KHandler \<noteq> None
                then w\<lparr>store := h3, errorHandlers := (errorHandlers w)(n \<mapsto> p)\<rparr> else w\<lparr>store := h3\<rparr>, Fulfilled p)
           | ReturnsPromise pr \<Rightarrow> (w\<lparr>store := h3\<rparr>, pr))"
    using a b by (cases res) (simp_all add: callback_body_def Let_def)
  with assms show ?thesis
    by (cases res) (auto split: if_splits)
qed

lemma reducer_frame:
  assumes "reducer n (w, p) m = (w', r)"
  shows "previousProps w' = previousProps w \<and> console w' = console w \<and> dispatched w' = dispatched w
     \<and> dispatch_result w' = dispatch_result w \<and> invoked w' = invoked w \<and> lifecycle w' = lifecycle w
     \<and> registry w' = registry w \<and> next_task w' = next_task w \<and> isConnected w' = isConnected w
     \<and> classList w' = classList w \<and> view_rendered w' = view_rendered w"
proof (cases p)
  case (Fulfilled acc)
  with assms have "callback_body n acc m w = (w', r)" by (simp add: reducer_simps)
  then show ?thesis by (rule callback_body_frame)
qed (use assms in \<open>auto simp: reducer_simps\<close>)

lemma foldl_reducer_frame:
  "foldl (reducer n) (w, p) ms = (w', r) \<Longrightarrow>
     previousProps w' = previousProps w \<and> console w' = console w \<and> dispatched w' = dispatched w
     \<and> dispatch_result w' = dispatch_result w \<and> invoked w' = invoked w \<and> lifecycle w' = lifecycle w
     \<and> registry w' = registry w \<and> next_task w' = next_task w \<and> isConnected w' = isConnected w
     \<and> classList w' = classList w \<and> view_rendered w' = view_rendered w"
proof (induction ms arbitrary: w p)
  case Nil
  then show ?case by simp
next
  case (Cons m ms)
  obtain w1 p1 where s: "reducer n (w, p) m = (w1, p1)" by (cases "reducer n (w, p) m")
  from Cons.prems s have "foldl (reducer n) (w1, p1) ms = (w', r)" by simp
  from Cons.IH[OF this] reducer_frame[OF s] show ?case by simp
qed

lemma handleMiddleware_frame:
  assumes "handleMiddleware n init ms w = (w', r)"
  shows "console w' = console w \<and> dispatched w' = dispatched w
     \<and> dispatch_result w' = dispatch_result w \<and> invoked w' = invoked w \<and> lifecycle w' = lifecycle w
     \<and> registry w' = registry w \<and> next_task w' = next_task w \<and> isConnected w' = isConnected w
     \<and> classList w' = classList w \<and> view_rendered w' = view_rendered w"
proof -
  obtain w1 r1 where f: "foldl (reducer n) (w, Fulfilled init) ms = (w1, r1)"
    by (cases "foldl (reducer n) (w, Fulfilled init) ms")
  from assms f have "w' = w1 \<or> (\<exists>p. w' = w1\<lparr>previousProps := (previousProps w1)(n \<mapsto> p)\<rparr>)"
    by (cases r1) (auto simp: handleMiddleware_def)
  with foldl_reducer_frame[OF f] show ?thesis by auto
qed

text \<open>
  C3. \<open>handleMiddleware\<close> is the sequential fold of the callback's body over the
  middleware list, starting at the initial props: each step runs on the value the step
  before it produced, once that value is there. A step is called with a new object
  holding the accumulated props' fields and the field \<open>props\<close> that refers to the
  accumulated props; what it returns, or the promise it returns, becomes the next
  accumulator, what it throws rejects the run. When the run fulfils, the final snapshot
  is the result and is stored as the instance's previous props.
\<close>

theorem handleMiddleware_folds_in_order:
  "handleMiddleware n init ms w =
     (case sequential_fold (\<lambda>s acc m. callback_body n acc m s) init ms w of
        (w', Fulfilled p) \<Rightarrow> (w'\<lparr>previousProps := (previousProps w')(n \<mapsto> p)\<rparr>, Fulfilled p)
      | (w', Rejected e) \<Rightarrow> (w', Rejected e)
      | (w', Pending) \<Rightarrow> (w', Pending))
   \<and> (\<exists>arg h. step_argument acc (store s) = (arg, h)
          \<and> own_props h arg = (own_props (store s) acc)(KStr ''props'' \<mapsto> VObj acc)
          \<and> store (fst (callback_body n acc m s)) = fst (m h arg)
          \<and> (\<forall>p. snd (m h arg) = Returns p \<longrightarrow> snd (callback_body n acc m s) = Fulfilled p)
          \<and> (\<forall>pr. snd (m h arg) = ReturnsPromise pr \<longrightarrow> snd (callback_body n acc m s) = pr)
          \<and> (\<forall>e. snd (m h arg) = Throws e \<longrightarrow> snd (callback_body n acc m s) = Rejected e))
   \<and> (\<forall>p. snd (handleMiddleware n init ms w) = Fulfilled p \<longrightarrow>
          previousProps (fst (handleMiddleware n init ms w)) n = Some p)"
proof (intro conjI)
  show "handleMiddleware n init ms w =
     (case sequential_fold (\<lambda>s acc m. callback_body n acc m s) init ms w of
        (w', Fulfilled p) \<Rightarrow> (w'\<lparr>previousProps := (previousProps w')(n \<mapsto> p)\<rparr>, Fulfilled p)
      | (w', Rejected e) \<Rightarrow> (w', Rejected e)
      | (w', Pending) \<Rightarrow> (w', Pending))"
    by (simp add: handleMiddleware_def foldl_reducer_sequential)
next
  obtain arg h where a: "step_argument acc (store s) = (arg, h)" by (cases "step_argument acc (store s)")
  obtain h3 res where b: "m h arg = (h3, res)" by (cases "m h arg")
  have "store (fst (callback_body n acc m s)) = h3"
    using a b by (cases res) (simp_all add: callback_body_def Let_def)
  moreover have "\<forall>p. res = Returns p \<longrightarrow> snd (callback_body n acc m s) = Fulfilled p"
    using a b by (simp add: callback_body_def Let_def)
  moreover have "\<forall>pr. res = ReturnsPromise pr \<longrightarrow> snd (callback_body n acc m s) = pr"
    using a b by (simp add: callback_body_def Let_def)
  moreover have "\<forall>e. res = Throws e \<longrightarrow> snd (callback_body n acc m s) = Rejected e"
    using a b by (simp add: callback_body_def Let_def)
  ultimately show "\<exists>arg h. step_argument acc (store s) = (arg, h)
          \<and> own_props h arg = (own_props (store s) acc)(KStr ''props'' \<mapsto> VObj acc)
          \<and> store (fst (callback_body n acc m s)) = fst (m h arg)
          \<and> (\<forall>p. snd (m h arg) = Returns p \<longrightarrow> snd (callback_body n acc m s) = Fulfilled p)
          \<and> (\<forall>pr. snd (m h arg) = ReturnsPromise pr \<longrightarrow> snd (callback_body n acc m s) = pr)
          \<and> (\<forall>e. snd (m h arg) = Throws e \<longrightarrow> snd (callback_body n acc m s) = Rejected e)"
    using a b step_argument_props[OF a] by (intro exI[of _ arg] exI[of _ h]) simp
next
  show "\<forall>p. snd (handleMiddleware n init ms w) = Fulfilled p \<longrightarrow>
          previousProps (fst (handleMiddleware n init ms w)) n = Some p"
    by (auto simp: handleMiddleware_def split: prod.splits promise.splits)
qed

theorem handleMiddleware_folds_in_order_witness:
  "snd (handleMiddleware 0 0 [rescue_step, async_step] one_object_world) = Fulfilled 4
   \<and> previousProps (fst (handleMiddleware 0 0 [rescue_step, async_step] one_object_world)) 0 = Some 4"
proof -
  have "snd (handleMiddleware 0 0 [rescue_step, async_step] one_object_world) = Fulfilled 4"
    by (simp add: handleMiddleware_def reducer_def callback_body_def step_argument_def alloc_def set_prop_def own_props_def Let_def
        rescue_step_def async_step_def one_object_world_def empty_world_def)
  then show ?thesis
    using handleMiddleware_folds_in_order[where n = 0 and init = 0 and ms = "[rescue_step, async_step]"
        and w = one_object_world]
    by blast
qed

text \<open>
  C5. When a run is rejected, the previous-props table is what it was before the run
  (every instance's slot refers to the snapshot it referred to before),
  and no step after the one that threw has run: whatever steps follow in the list, the
  run ends in the same world with the same error. The next write to the instance's
  previous props is the Error Recovery Controller's: called on the world the failed run
  left, with a registration, it stores a new object holding the registered snapshot's
  fields and the error, and touches no other instance's entry.
\<close>

theorem failed_run_keeps_previousProps:
  assumes "snd (handleMiddleware n init ms w) = Rejected e"
  shows "previousProps (fst (handleMiddleware n init ms w)) = previousProps w
     \<and> handleMiddleware n init (ms @ rest) w = handleMiddleware n init ms w
     \<and> (\<forall>p f. errorHandlers (fst (handleMiddleware n init ms w)) n = Some p
              \<and> own_props (store (fst (handleMiddleware n init ms w))) p KHandler = Some (VFun f) \<longrightarrow>
           (\<exists>saved arg w2. handleError call n e (fst (handleMiddleware n init ms w)) = call f arg w2
              \<and> previousProps w2 = (previousProps w)(n \<mapsto> saved)
              \<and> own_props (store w2) saved
                  = own_props (store (fst (handleMiddleware n init ms w))) p ++ [KStr ''error'' \<mapsto> e]))"
proof -
  obtain w' r where f: "foldl (reducer n) (w, Fulfilled init) ms = (w', r)"
    by (cases "foldl (reducer n) (w, Fulfilled init) ms")
  from assms f have r: "r = Rejected e"
    by (cases r) (simp_all add: handleMiddleware_def)
  have hm: "handleMiddleware n init ms w = (w', Rejected e)"
    using f r by (simp add: handleMiddleware_def)
  have keep: "previousProps w' = previousProps w"
    using foldl_reducer_frame[OF f] by simp
  have stop: "handleMiddleware n init (ms @ rest) w = (w', Rejected e)"
    using f r by (simp add: handleMiddleware_def foldl_reducer_Rejected)
  have persist: "\<exists>saved arg w2. handleError call n e w' = call f arg w2
              \<and> previousProps w2 = (previousProps w)(n \<mapsto> saved)
              \<and> own_props (store w2) saved = own_props (store w') p ++ [KStr ''error'' \<mapsto> e]"
    if reg: "errorHandlers w' n = Some p" "own_props (store w') p KHandler = Some (VFun f)" for p f
  proof -
    from handleError_registered[OF reg, of call e]
    obtain saved arg w2 where h: "handleError call n e w' = call f arg w2"
        "w2 = w'\<lparr>previousProps := (previousProps w')(n \<mapsto> saved), store := store w2,
                 invoked := invoked w' @ [(f, arg)]\<rparr>"
        "own_props (store w2) saved = own_props (store w') p ++ [KStr ''error'' \<mapsto> e]"
      by blast
    have "previousProps w2 = (previousProps w')(n \<mapsto> saved)"
      by (subst h(2)) simp
    with h keep show ?thesis by auto
  qed
  show ?thesis
    unfolding hm using keep stop persist by simp
qed

theorem failed_run_keeps_previousProps_witness:
  "snd (handleMiddleware 0 0 [rescue_step, failing_step] one_object_world) = Rejected (VError ''boom'')
   \<and> previousProps (fst (handleMiddleware 0 0 [rescue_step, failing_step] one_object_world)) 0 = None
   \<and> handleMiddleware 0 0 ([rescue_step, failing_step] @ [async_step]) one_object_world
       = handleMiddleware 0 0 [rescue_step, failing_step] one_object_world
   \<and> errorHandlers (fst (handleMiddleware 0 0 [rescue_step, failing_step] one_object_world)) 0 = Some 2
   \<and> (\<exists>saved arg w2.
         handleError idle_handler 0 (VError ''boom'')
             (fst (handleMiddleware 0 0 [rescue_step, failing_step] one_object_world)) = (w2, None)
         \<and> previousProps w2 0 = Some saved
         \<and> own_props (store w2) saved (KStr ''error'') = Some (VError ''boom'')
         \<and> own_props (store w2) saved (KStr ''a'') = Some (VNum 1))"
proof -
  let ?w' = "fst (handleMiddleware 0 0 [rescue_step, failing_step] one_object_world)"
  have h: "snd (handleMiddleware 0 0 [rescue_step, failing_step] one_object_world) = Rejected (VError ''boom'')"
    by (simp add: handleMiddleware_def reducer_def callback_body_def step_argument_def alloc_def set_prop_def own_props_def Let_def
        rescue_step_def failing_step_def one_object_world_def empty_world_def)
  have reg: "errorHandlers ?w' 0 = Some 2" "own_props (store ?w') 2 KHandler = Some (VFun (UserFn 0))"
      "own_props (store ?w') 2 (KStr ''a'') = Some (VNum 1)"
    by (simp_all add: handleMiddleware_def reducer_def callback_body_def step_argument_def alloc_def set_prop_def own_props_def Let_def
        rescue_step_def failing_step_def one_object_world_def empty_world_def)
  have none: "previousProps one_object_world 0 = None" by (simp add: one_object_world_def empty_world_def)
  note t = failed_run_keeps_previousProps[OF h, of "[async_step]" idle_handler]
  from t reg obtain saved arg w2 where p: "handleError idle_handler 0 (VError ''boom'') ?w' = idle_handler (UserFn 0) arg w2"
      "previousProps w2 = (previousProps one_object_world)(0 \<mapsto> saved)"
      "own_props (store w2) saved = own_props (store ?w') 2 ++ [KStr ''error'' \<mapsto> VError ''boom'']"
    by blast
  have "handleError idle_handler 0 (VError ''boom'') ?w' = (w2, None)"
    using p(1) by (simp add: idle_handler_def)
  moreover have "previousProps w2 0 = Some saved" using p(2) by simp
  moreover have "own_props (store w2) saved (KStr ''error'') = Some (VError ''boom'')"
    using p(3) by simp
  moreover have "own_props (store w2) saved (KStr ''a'') = Some (VNum 1)"
    using p(3) reg(3) by (simp add: map_add_def)
  ultimately show ?thesis
    using h t none reg(1) by auto
qed

text \<open>
  The registration is only ever written, never removed: an instance that has one before
  a run has one after it.
\<close>

lemma errorHandlers_never_cleared:
  assumes "errorHandlers w k \<noteq> None"
  shows "errorHandlers (fst (handleMiddleware n init ms w)) k \<noteq> None"
proof -
  have step: "errorHandlers (fst (reducer n (s, p) m)) k \<noteq> None" if "errorHandlers s k \<noteq> None" for s p m
  proof (cases p)
    case (Fulfilled acc)
    obtain arg h2 where a: "step_argument acc (store s) = (arg, h2)" by (cases "step_argument acc (store s)")
    obtain h3 res where b: "m h2 arg = (h3, res)" by (cases "m h2 arg")
    show ?thesis
      using that a b Fulfilled by (cases res) (simp_all add: reducer_simps callback_body_def Let_def)
  qed (use that in \<open>simp_all add: reducer_simps\<close>)
  have run: "errorHandlers (fst (foldl (reducer n) (s, p) ms)) k \<noteq> None" if "errorHandlers s k \<noteq> None" for s p
    using that
  proof (induction ms arbitrary: s p)
    case Nil
    then show ?case by simp
  next
    case (Cons m ms)
    obtain s1 p1 where r: "reducer n (s, p) m = (s1, p1)" by (cases "reducer n (s, p) m")
    from step[OF Cons.prems, of p m] r have "errorHandlers s1 k \<noteq> None" by simp
    from Cons.IH[OF this, of p1] r show ?case by simp
  qed
  obtain w' r where f: "foldl (reducer n) (w, Fulfilled init) ms = (w', r)"
    by (cases "foldl (reducer n) (w, Fulfilled init) ms")
  from run[OF assms, of "Fulfilled init"] f have "errorHandlers w' k \<noteq> None" by simp
  then show ?thesis
    using f by (cases r) (simp_all add: handleMiddleware_def)
qed

text \<open>
  A step that returns a marker-bearing props object synchronously as the last step of a
  run leaves that object registered.
\<close>

lemma synchronous_marker_is_registered:
  assumes "step_argument acc (store s) = (arg, h2)" and "m h2 arg = (h3, Returns p)"
    and "own_props h3 p KHandler = Some v"
  shows "errorHandlers (fst (callback_body n acc m s)) n = Some p"
  using assms by (simp add: callback_body_def)

text \<open>
  C4, evaluated where the code departs from it. The pipeline is the rescue step followed
  by a step that suspends; the props the second step resolves to (the object at address
  4) carry the marker and the new field \<open>data\<close>. After the run the registration is
  still the snapshot of the first step (the object at address 2, without \<open>data\<close>): the
  executor looked for the marker in the promise the second step returned, not in the
  props the promise resolved to. A third step that fails then leaves the controller with
  that older snapshot.
\<close>

theorem awaited_marker_is_not_registered:
  "snd (handleMiddleware 0 0 [rescue_step, async_step] one_object_world) = Fulfilled 4
   \<and> own_props (store (fst (handleMiddleware 0 0 [rescue_step, async_step] one_object_world))) 4 KHandler
       = Some (VFun (UserFn 0))
   \<and> own_props (store (fst (handleMiddleware 0 0 [rescue_step, async_step] one_object_world))) 4 (KStr ''data'')
       = Some (VNum 1)
   \<and> errorHandlers (fst (handleMiddleware 0 0 [rescue_step, async_step] one_object_world)) 0 = Some 2
   \<and> own_props (store (fst (handleMiddleware 0 0 [rescue_step, async_step] one_object_world))) 2 (KStr ''data'')
       = None
   \<and> snd (handleMiddleware 0 0 [rescue_step, async_step, failing_step] one_object_world)
       = Rejected (VError ''boom'')
   \<and> errorHandlers (fst (handleMiddleware 0 0 [rescue_step, async_step, failing_step] one_object_world)) 0
       = Some 2"
  by (simp add: handleMiddleware_def reducer_def callback_body_def step_argument_def alloc_def set_prop_def own_props_def Let_def
      rescue_step_def async_step_def failing_step_def one_object_world_def empty_world_def)

subsection \<open>The render entry point\<close>

lemma start_pass_frame:
  assumes "start_pass ms n ov w = (handle, w3, r)"
  shows "console w3 = console w \<and> dispatched w3 = dispatched w \<and> invoked w3 = invoked w
     \<and> lifecycle w3 = lifecycle w \<and> classList w3 = classList w \<and> view_rendered w3 = view_rendered w
     \<and> registry w3 = (registry w)(n := registry w n @ [handle])"
proof -
  obtain h w1 where e: "enqueue n w = (h, w1)" by (cases "enqueue n w")
  obtain init w2 where g: "getInitialProps n ov h w1 = (init, w2)" by (cases "getInitialProps n ov h w1")
  obtain w3' r' where m: "handleMiddleware n init ms w2 = (w3', r')" by (cases "handleMiddleware n init ms w2")
  from assms e g m have eq: "handle = h" "w3 = w3'" by (simp_all add: start_pass_def)
  have w1: "w1 = w\<lparr>registry := (registry w)(n := registry w n @ [h]), next_task := Suc (next_task w)\<rparr>"
    using e by (auto simp: enqueue_def)
  have w2: "\<exists>hp. w2 = w1\<lparr>store := hp\<rparr>"
    using g by (auto simp: getInitialProps_def Let_def split: prod.splits)
  from handleMiddleware_frame[OF m] w1 w2 eq show ?thesis by auto
qed

lemma cancel_at_any_position:
  assumes "snd (foldl (reducer n) (w, Fulfilled init) before) = Fulfilled acc"
    and "\<And>h a. snd (m h a) = Throws VCancelError"
  shows "snd (handleMiddleware n init (before @ m # after) w) = Rejected VCancelError"
proof -
  obtain w1 where f: "foldl (reducer n) (w, Fulfilled init) before = (w1, Fulfilled acc)"
    using assms(1) by (cases "foldl (reducer n) (w, Fulfilled init) before") simp
  obtain arg h2 where a: "step_argument acc (store w1) = (arg, h2)" by (cases "step_argument acc (store w1)")
  obtain h3 where b: "m h2 arg = (h3, Throws VCancelError)"
    using assms(2)[of h2 arg] by (cases "m h2 arg") simp
  have "callback_body n acc m w1 = (w1\<lparr>store := h3\<rparr>, Rejected VCancelError)"
    using a b by (simp add: callback_body_def)
  then show ?thesis
    using f by (simp add: handleMiddleware_def reducer_simps foldl_reducer_Rejected)
qed

text \<open>
  C2. A render call on an instance in the error state returns at once and leaves the
  world as it is: no task in the registry, no middleware step run, no view rendered, no
  visual flag changed, no notification sent. The same holds for any sequence of such
  calls, as none of them changes the state.
\<close>

theorem render_is_inert_in_error_state:
  assumes "isError n w"
  shows "render ms call pre n overrideProps w = (w, Fulfilled ())
     \<and> foldl (\<lambda>s ov. fst (render ms call pre n ov s)) w overrides = w"
proof
  show "render ms call pre n overrideProps w = (w, Fulfilled ())"
    using assms by (simp add: render_def)
  show "foldl (\<lambda>s ov. fst (render ms call pre n ov s)) w overrides = w"
    using assms by (induction overrides) (simp_all add: render_def)
qed

theorem render_is_inert_in_error_state_witness:
  "isError 0 error_world
   \<and> render [rescue_step] idle_handler False 0 VUndefined error_world = (error_world, Fulfilled ())
   \<and> foldl (\<lambda>s ov. fst (render [rescue_step] idle_handler False 0 ov s)) error_world [VUndefined, VNull] = error_world"
proof -
  have h: "isError 0 error_world" by (simp add: isError_def error_world_def empty_world_def)
  show ?thesis
    using h render_is_inert_in_error_state[OF h, of "[rescue_step]" idle_handler False VUndefined "[VUndefined, VNull]"]
    by blast
qed

text \<open>
  C6. On an instance in the error state a plain render call is refused. The callback
  that \<open>handleError\<close> hands to the handler first sets the state to normal, changing
  nothing else, and then calls the render entry point with the override props it was
  given. With the orchestrator's render as entry point the call is therefore not
  refused: a new pass starts, registers a task and builds its initial props from those
  overrides. The argument of the handler holds this callback under \<open>render\<close>.
\<close>

theorem recovery_render_round_trip:
  assumes "isError n w"
  shows "render ms call pre n mergeProps w = (w, Fulfilled ())
     \<and> call_RecoveryRender node_render n mergeProps w = node_render n mergeProps (setNormal n w)
     \<and> lifecycle (setNormal n w) n = StNormal
     \<and> setNormal n w = w\<lparr>lifecycle := (lifecycle w)(n := StNormal)\<rparr>
     \<and> call_RecoveryRender (render ms call pre) n mergeProps w
         = render_pass ms call pre n mergeProps (setNormal n w)
     \<and> (\<exists>init handle w1 w2. enqueue n (setNormal n w) = (handle, w1)
           \<and> registry w1 n = registry w n @ [handle]
           \<and> getInitialProps n mergeProps handle w1 = (init, w2)
           \<and> start_pass ms n mergeProps (setNormal n w)
               = (handle, handleMiddleware n init ms w2))
     \<and> (\<forall>p f. errorHandlers w n = Some p \<and> own_props (store w) p KHandler = Some (VFun f) \<longrightarrow>
           (\<exists>arg w2. handleError call n err w = call f arg w2
              \<and> own_props (store w2) arg (KStr ''render'') = Some (VFun (RecoveryRender n))
              \<and> lifecycle w2 = lifecycle w))"
proof -
  obtain handle w1 where e: "enqueue n (setNormal n w) = (handle, w1)" by (cases "enqueue n (setNormal n w)")
  obtain init w2 where g: "getInitialProps n mergeProps handle w1 = (init, w2)"
    by (cases "getInitialProps n mergeProps handle w1")
  have r: "registry w1 n = registry w n @ [handle]"
    using e by (auto simp: enqueue_def setNormal_def)
  have s: "start_pass ms n mergeProps (setNormal n w) = (handle, handleMiddleware n init ms w2)"
    using e g by (simp add: start_pass_def split: prod.splits)
  have pass: "\<exists>init handle w1 w2. enqueue n (setNormal n w) = (handle, w1)
           \<and> registry w1 n = registry w n @ [handle]
           \<and> getInitialProps n mergeProps handle w1 = (init, w2)
           \<and> start_pass ms n mergeProps (setNormal n w)
               = (handle, handleMiddleware n init ms w2)"
    using e g r s by blast
  have cb: "\<exists>arg w2. handleError call n err w = call f arg w2
              \<and> own_props (store w2) arg (KStr ''render'') = Some (VFun (RecoveryRender n))
              \<and> lifecycle w2 = lifecycle w"
    if reg: "errorHandlers w n = Some p" "own_props (store w) p KHandler = Some (VFun f)" for p f
  proof -
    from handleError_registered[OF reg, of call err]
    obtain saved arg w2 where h: "handleError call n err w = call f arg w2"
        "w2 = w\<lparr>previousProps := (previousProps w)(n \<mapsto> saved), store := store w2,
                 invoked := invoked w @ [(f, arg)]\<rparr>"
        "own_props (store w2) arg = own_props (store w) p ++
              [KStr ''error'' \<mapsto> err, KStr ''render'' \<mapsto> VFun (RecoveryRender n)]"
      by blast
    have "lifecycle w2 = lifecycle w" by (subst h(2)) simp
    moreover have "own_props (store w2) arg (KStr ''render'') = Some (VFun (RecoveryRender n))"
      using h(3) by simp
    ultimately show ?thesis using h(1) by blast
  qed
  have first: "render ms call pre n mergeProps w = (w, Fulfilled ())
     \<and> call_RecoveryRender node_render n mergeProps w = node_render n mergeProps (setNormal n w)
     \<and> lifecycle (setNormal n w) n = StNormal
     \<and> setNormal n w = w\<lparr>lifecycle := (lifecycle w)(n := StNormal)\<rparr>
     \<and> call_RecoveryRender (render ms call pre) n mergeProps w
         = render_pass ms call pre n mergeProps (setNormal n w)"
    using assms by (simp add: render_def call_RecoveryRender_def setNormal_def isError_def)
  show ?thesis
    using first pass cb by blast
qed

theorem recovery_render_round_trip_witness:
  "isError 0 (registered_world\<lparr>lifecycle := (\<lambda>n. StError)\<rparr>)
   \<and> render [] idle_handler False 0 VUndefined (registered_world\<lparr>lifecycle := (\<lambda>n. StError)\<rparr>)
       = (registered_world\<lparr>lifecycle := (\<lambda>n. StError)\<rparr>, Fulfilled ())
   \<and> lifecycle (setNormal 0 (registered_world\<lparr>lifecycle := (\<lambda>n. StError)\<rparr>)) 0 = StNormal
   \<and> call_RecoveryRender (render [] idle_handler False) 0 VUndefined (registered_world\<lparr>lifecycle := (\<lambda>n. StError)\<rparr>)
       = render_pass [] idle_handler False 0 VUndefined (setNormal 0 (registered_world\<lparr>lifecycle := (\<lambda>n. StError)\<rparr>))
   \<and> (\<exists>arg w2. handleError idle_handler 0 VNull (registered_world\<lparr>lifecycle := (\<lambda>n. StError)\<rparr>) = (w2, None)
         \<and> own_props (store w2) arg (KStr ''render'') = Some (VFun (RecoveryRender 0)))"
proof -
  let ?w = "registered_world\<lparr>lifecycle := (\<lambda>n. StError)\<rparr>"
  have h: "isError 0 ?w" by (simp add: isError_def)
  have reg: "errorHandlers ?w 0 = Some 0 \<and> own_props (store ?w) 0 KHandler = Some (VFun (UserFn 0))"
    by (simp add: registered_world_def empty_world_def own_props_def)
  note t = recovery_render_round_trip[OF h, of "[]" idle_handler False VUndefined "render [] idle_handler False" VNull]
  from t reg obtain arg w2 where p: "handleError idle_handler 0 VNull ?w = idle_handler (UserFn 0) arg w2"
      "own_props (store w2) arg (KStr ''render'') = Some (VFun (RecoveryRender 0))"
    by blast
  have "handleError idle_handler 0 VNull ?w = (w2, None)"
    using p(1) by (simp add: idle_handler_def)
  with p(2) have "\<exists>arg w2. handleError idle_handler 0 VNull ?w = (w2, None)
         \<and> own_props (store w2) arg (KStr ''render'') = Some (VFun (RecoveryRender 0))"
    by blast
  then show ?thesis using h t by blast
qed

text \<open>
  C7. When the pipeline of a pass is rejected with the cancellation signal, whichever
  step raised it, the pass ends fulfilled with the lifecycle state, the handler calls,
  the console, the dispatched events, the visual flags and the view renders all as they
  were before the pass, and with its task removed from the registry. The signal is
  recognised by being a \<open>CancelError\<close>: an ordinary error is a failure whatever its
  message says, the pass moves to the error state, calls the Error Recovery Controller
  and sends the notification.
\<close>

theorem cancellation_is_silent:
  assumes "\<not> isError n w"
  shows "(snd (snd (start_pass ms n ov w)) = Rejected VCancelError \<longrightarrow>
            snd (render ms call pre n ov w) = Fulfilled ()
          \<and> lifecycle (fst (render ms call pre n ov w)) = lifecycle w
          \<and> invoked (fst (render ms call pre n ov w)) = invoked w
          \<and> console (fst (render ms call pre n ov w)) = console w
          \<and> dispatched (fst (render ms call pre n ov w)) = dispatched w
          \<and> classList (fst (render ms call pre n ov w)) = classList w
          \<and> view_rendered (fst (render ms call pre n ov w)) = view_rendered w
          \<and> registry (fst (render ms call pre n ov w)) n = removeAll (fst (start_pass ms n ov w)) (registry w n))
      \<and> (\<forall>msg. snd (snd (start_pass ms n ov w)) = Rejected (VError msg) \<longrightarrow>
            fst (render ms call pre n ov w) =
              drop_task n (fst (start_pass ms n ov w))
                (notify_resolved n (fst (handleError call n (VError msg)
                   (setError n (if pre then drop_task n (fst (start_pass ms n ov w)) (fst (snd (start_pass ms n ov w)))
                                else fst (snd (start_pass ms n ov w))))))))"
proof -
  obtain handle w3 r where s: "start_pass ms n ov w = (handle, w3, r)" by (cases "start_pass ms n ov w")
  note fr = start_pass_frame[OF s]
  have a: "r = Rejected VCancelError \<Longrightarrow> render ms call pre n ov w =
        (drop_task n handle (if pre then drop_task n handle w3 else w3), Fulfilled ())"
    using assms s by (simp add: render_def render_pass_def Let_def)
  have b: "\<And>msg. r = Rejected (VError msg) \<Longrightarrow> fst (render ms call pre n ov w) =
        drop_task n handle (notify_resolved n (fst (handleError call n (VError msg)
           (setError n (if pre then drop_task n handle w3 else w3)))))"
    using assms s by (simp add: render_def render_pass_def Let_def split: prod.splits)
  show ?thesis
    using a b fr s by (auto simp: drop_task_def)
qed

theorem cancellation_is_silent_witness:
  "\<not> isError 0 empty_world
   \<and> snd (snd (start_pass [identity_step, aborting_step, failing_step] 0 VUndefined empty_world))
       = Rejected VCancelError
   \<and> lifecycle (fst (render [identity_step, aborting_step, failing_step] idle_handler False 0 VUndefined empty_world)) 0
       = StNormal
   \<and> console (fst (render [identity_step, aborting_step, failing_step] idle_handler False 0 VUndefined empty_world)) = []
   \<and> dispatched (fst (render [identity_step, aborting_step, failing_step] idle_handler False 0 VUndefined empty_world)) = []
   \<and> invoked (fst (render [identity_step, aborting_step, failing_step] idle_handler False 0 VUndefined empty_world)) = []"
proof -
  have h: "\<not> isError 0 empty_world" by (simp add: isError_def empty_world_def)
  have c: "snd (snd (start_pass [identity_step, aborting_step, failing_step] 0 VUndefined empty_world))
       = Rejected VCancelError"
    by (simp add: start_pass_def enqueue_def getInitialProps_def helpers_def
        handleMiddleware_def reducer_def callback_body_def step_argument_def alloc_def set_prop_def own_props_def Let_def
        identity_step_def aborting_step_def failing_step_def call_Abort_def empty_world_def)
  have e: "lifecycle empty_world 0 = StNormal" "console empty_world = []" "dispatched empty_world = []"
      "invoked empty_world = []"
    by (simp_all add: empty_world_def)
  show ?thesis
    using h c e cancellation_is_silent[OF h, of "[identity_step, aborting_step, failing_step]" VUndefined idle_handler False]
    by simp
qed

end
